theory Spec2Isabelle
  imports Main "HOL-Library.Multiset"
begin

section \<open>Data model of the accounts slice\<close>

type_synonym account_id = string
type_synonym transaction_id = string

text \<open>
  One entry of \<open>failedAccounts\<close>: the object \<open>{ type, code }\<close> that
  \<open>markAccountFailed\<close> stores from the payload fields \<open>errorType\<close> and \<open>errorCode\<close>.
\<close>

record failure =
  errorType :: string
  errorCode :: string

text \<open>\<open>AccountState\<close>: the failure dictionary and the list of ids still being synced.\<close>

record account_state =
  failedAccounts :: "account_id \<rightharpoonup> failure"
  accountsSyncing :: "account_id list"

definition initialState :: account_state where
  "initialState = \<lparr>failedAccounts = Map.empty, accountsSyncing = []\<rparr>"

text \<open>
  Modelled from the spec: the declaration of \<open>SyncResponseWithErrors\<close> lives in
  \<open>server/accounts/app\<close>, which is not among these sources. An element of \<open>errors\<close> is either
  an object tagged \<open>type: 'SyncError'\<close> with a category, a code and a message, or any
  other error object with a message and an optional \<open>internal\<close> detail. The test
  \<open>'type' in error && error.type === 'SyncError'\<close> of the source is the match on the
  constructor \<open>SyncError category code message\<close>.
\<close>

datatype sync_error =
    SyncError string string string
  | OtherError string "string option"

record sync_response =
  errors :: "sync_error list"
  newTransactions :: "transaction_id list"
  matchedTransactions :: "transaction_id list"
  updatedAccounts :: "account_id list"

text \<open>
  Modelled from the spec: \<open>AccountEntity\<close> is declared in \<open>types/models\<close>, which is not
  among these sources. Only the fields that \<open>syncAccounts\<close> reads are kept. \<open>bank\<close> is a
  nullable string, the flags \<open>closed\<close>, \<open>tombstone\<close> and \<open>offbudget\<close> are 0/1 values
  (subtracted as numbers by the comparator), \<open>sort_order\<close> is a number.
\<close>

record account_entity =
  acct_id :: account_id
  bank :: "string option"
  closed :: bool
  tombstone :: bool
  offbudget :: bool
  sort_order :: int
  account_sync_source :: "string option"

section \<open>Actions, requests and the observable trace\<close>

text \<open>
  Everything the thunk hands to \<open>dispatch\<close>. The first three are the slice's own reducers;
  \<open>addNotification\<close> (type, message, internal), \<open>getAccounts\<close> and \<open>setNewTransactions\<close>
  belong to other slices and are only recorded.
\<close>

datatype action =
    SetAccountsSyncing "account_id list"
  | MarkAccountFailed account_id string string
  | MarkAccountSuccess account_id
  | AddNotification string string "string option"
  | GetAccounts
  | SetNewTransactions "transaction_id list" "transaction_id list" "account_id list"

text \<open>The three messages the thunk passes to \<open>send\<close>.\<close>

datatype request =
    AccountsGet
  | SimplefinBatchSync "account_id list"
  | AccountsBankSync "account_id list"

datatype effect = Dispatch action | Send request

text \<open>The reducers of \<open>accountsSlice\<close>; an action of another slice leaves the state alone.\<close>

fun reducer :: "account_state \<Rightarrow> action \<Rightarrow> account_state" where
  "reducer state (SetAccountsSyncing ids) = state\<lparr>accountsSyncing := ids\<rparr>"
| "reducer state (MarkAccountFailed i ty co) =
     state\<lparr>failedAccounts := (failedAccounts state)(i \<mapsto> \<lparr>errorType = ty, errorCode = co\<rparr>)\<rparr>"
| "reducer state (MarkAccountSuccess i) =
     state\<lparr>failedAccounts := (failedAccounts state)(i := None)\<rparr>"
| "reducer state (AddNotification ty msg internal) = state"
| "reducer state GetAccounts = state"
| "reducer state (SetNewTransactions new matched updated) = state"

text \<open>
  The store as the thunk sees it: the \<open>account\<close> slice, and the trace of every dispatch
  and every provider call so far, oldest first.
\<close>

record store =
  account :: account_state
  effects :: "effect list"

definition dispatch :: "action \<Rightarrow> store \<Rightarrow> store" where
  "dispatch a s = \<lparr>account = reducer (account s) a, effects = effects s @ [Dispatch a]\<rparr>"

definition send :: "request \<Rightarrow> store \<Rightarrow> store" where
  "send r s = s\<lparr>effects := effects s @ [Send r]\<rparr>"

section \<open>handleSyncResponse\<close>

text \<open>The three arrays the caller owns and \<open>handleSyncResponse\<close> pushes onto.\<close>

record results =
  resNewTransactions :: "transaction_id list"
  resMatchedTransactions :: "transaction_id list"
  resUpdatedAccounts :: "account_id list"

text \<open>
  \<open>const [error] = errors; if (error) { if SyncError: markAccountFailed } else
  markAccountSuccess\<close>: only the head of the list is looked at.
\<close>

fun markAccount :: "account_id \<Rightarrow> sync_error list \<Rightarrow> store \<Rightarrow> store" where
  "markAccount accountId [] s = dispatch (MarkAccountSuccess accountId) s"
| "markAccount accountId (SyncError category code msg # rest) s =
     dispatch (MarkAccountFailed accountId category code) s"
| "markAccount accountId (OtherError msg internal # rest) s = s"

text \<open>The body of \<open>errors.forEach\<close>: the notification built for one error.\<close>

fun notification :: "sync_error \<Rightarrow> action" where
  "notification (SyncError category code msg) = AddNotification ''error'' msg None"
| "notification (OtherError msg internal) = AddNotification ''error'' msg internal"

definition handleSyncResponse ::
  "account_id \<Rightarrow> sync_response \<Rightarrow> store \<Rightarrow> results \<Rightarrow> bool \<times> store \<times> results" where
  "handleSyncResponse accountId res s r =
     (let s1 = markAccount accountId (errors res) s;
          s2 = fold (\<lambda>error. dispatch (notification error)) (errors res) s1;
          r' = \<lparr>resNewTransactions = resNewTransactions r @ newTransactions res,
                resMatchedTransactions = resMatchedTransactions r @ matchedTransactions res,
                resUpdatedAccounts = resUpdatedAccounts r @ updatedAccounts res\<rparr>;
          s3 = dispatch GetAccounts s2
      in (newTransactions res \<noteq> [] \<or> matchedTransactions res \<noteq> [], s3, r'))"

section \<open>syncAccounts\<close>

text \<open>JavaScript truthiness of an optional string: \<open>undefined\<close>, \<open>null\<close> and \<open>''\<close> are falsy.\<close>

fun truthy :: "string option \<Rightarrow> bool" where
  "truthy None = False"
| "truthy (Some str) = (str \<noteq> [])"

text \<open>The filter predicate \<open>!!bank && !closed && !tombstone\<close>.\<close>

definition syncable :: "account_entity \<Rightarrow> bool" where
  "syncable a = (truthy (bank a) \<and> \<not> closed a \<and> \<not> tombstone a)"

text \<open>The comparator handed to \<open>sort\<close>; the flags count as 0 and 1.\<close>

definition compareAccounts :: "account_entity \<Rightarrow> account_entity \<Rightarrow> int" where
  "compareAccounts a b =
     (if offbudget a = offbudget b then sort_order a - sort_order b
      else of_bool (offbudget a) - of_bool (offbudget b))"

text \<open>
  \<open>Array.prototype.sort\<close> with a comparator is a stable sort: an element moves behind
  another only when the comparator is positive. Insertion from the right gives exactly
  that result for a comparator that orders the elements consistently.
\<close>

fun insertBy :: "('a \<Rightarrow> 'a \<Rightarrow> int) \<Rightarrow> 'a \<Rightarrow> 'a list \<Rightarrow> 'a list" where
  "insertBy cmp x [] = [x]"
| "insertBy cmp x (y # ys) = (if cmp x y \<le> 0 then x # y # ys else y # insertBy cmp x ys)"

fun sortBy :: "('a \<Rightarrow> 'a \<Rightarrow> int) \<Rightarrow> 'a list \<Rightarrow> 'a list" where
  "sortBy cmp [] = []"
| "sortBy cmp (x # xs) = insertBy cmp x (sortBy cmp xs)"

text \<open>The accounts behind the "sync all" id list, before \<open>.map(({ id }) => id)\<close>.\<close>

definition accountsToSync :: "account_entity list \<Rightarrow> account_entity list" where
  "accountsToSync accounts = sortBy compareAccounts (filter syncable accounts)"

text \<open>\<open>batchSync = !id\<close>: true for a missing id and for the empty string.\<close>

definition batchSync :: "account_id option \<Rightarrow> bool" where
  "batchSync i = (\<not> truthy i)"

text \<open>
  The initial value of \<open>accountIdsToSync\<close>: \<open>!batchSync ? [id] : ...\<close>. In the first
  branch the id is present, since \<open>batchSync\<close> is false.
\<close>

definition worklist :: "account_id option \<Rightarrow> account_entity list \<Rightarrow> account_id list" where
  "worklist i accounts =
     (if \<not> batchSync i then [the i] else map acct_id (accountsToSync accounts))"

text \<open>
  What the backend answers. \<open>accounts_get\<close> is the reply to \<open>'accounts-get'\<close>,
  \<open>simplefin_batch_sync\<close> the reply to \<open>'simplefin-batch-sync'\<close> for the ids sent, and
  \<open>accounts_bank_sync idx accountId\<close> the reply to the \<open>'accounts-bank-sync'\<close> call that
  the loop makes at index \<open>idx\<close>.
\<close>

record provider =
  accounts_get :: "account_entity list"
  simplefin_batch_sync :: "account_id list \<Rightarrow> (account_id \<times> sync_response) list"
  accounts_bank_sync :: "nat \<Rightarrow> account_id \<Rightarrow> sync_response"

text \<open>The locals of one run: the success flag, the three arrays and the store.\<close>

record run =
  isSyncSuccess :: bool
  collected :: results
  current :: store

definition handleInRun :: "account_id \<Rightarrow> sync_response \<Rightarrow> run \<Rightarrow> run" where
  "handleInRun accountId res r =
     (case handleSyncResponse accountId res (current r) (collected r) of
        (success, s', c') \<Rightarrow>
          \<lparr>isSyncSuccess = (if success then True else isSyncSuccess r),
           collected = c', current = s'\<rparr>)"

text \<open>\<open>for (const account of res)\<close> over the batch reply.\<close>

fun batchLoop :: "(account_id \<times> sync_response) list \<Rightarrow> run \<Rightarrow> run" where
  "batchLoop [] r = r"
| "batchLoop ((accountId, res) # rest) r = batchLoop rest (handleInRun accountId res r)"

text \<open>\<open>for (let idx = 0; idx < accountIdsToSync.length; idx++)\<close>.\<close>

function sequentialLoop :: "provider \<Rightarrow> account_id list \<Rightarrow> nat \<Rightarrow> run \<Rightarrow> run" where
  "sequentialLoop p accountIdsToSync idx r =
     (if idx < length accountIdsToSync then
        (let accountId = accountIdsToSync ! idx;
             r1 = r\<lparr>current := send (AccountsBankSync [accountId]) (current r)\<rparr>;
             r2 = handleInRun accountId (accounts_bank_sync p idx accountId) r1;
             r3 = r2\<lparr>current :=
                    dispatch (SetAccountsSyncing (drop (idx + 1) accountIdsToSync)) (current r2)\<rparr>
         in sequentialLoop p accountIdsToSync (idx + 1) r3)
      else r)"
  by pat_completeness auto
termination
  by (relation "measure (\<lambda>(p, ids, idx, r). length ids - idx)") auto

declare sequentialLoop.simps [simp del]

definition simpleFinAccounts :: "account_entity list \<Rightarrow> account_entity list" where
  "simpleFinAccounts accountsData =
     filter (\<lambda>a. account_sync_source a = Some ''simpleFin'') accountsData"

text \<open>
  The thunk. \<open>accounts\<close> is \<open>getState().queries.accounts\<close>, \<open>i\<close> the optional id of the
  payload, \<open>s\<close> the store at entry. The result is the returned flag and the store at exit.
  Every \<open>await send(...)\<close> is taken to resolve with a reply, and no other thunk touches
  the store while this one is suspended: the run is the sequence of its own steps.
\<close>

definition syncAccounts ::
  "provider \<Rightarrow> account_entity list \<Rightarrow> account_id option \<Rightarrow> store \<Rightarrow> bool \<times> store" where
  "syncAccounts p accounts i s =
     (if accountsSyncing (account s) \<noteq> [] then (False, s)
      else
        (let accountIdsToSync = worklist i accounts;
             s1 = dispatch (SetAccountsSyncing accountIdsToSync) s;
             s2 = send AccountsGet s1;
             sfa = simpleFinAccounts (accounts_get p);
             r0 = \<lparr>isSyncSuccess = False,
                   collected = \<lparr>resNewTransactions = [], resMatchedTransactions = [],
                                resUpdatedAccounts = []\<rparr>,
                   current = s2\<rparr>;
             (r1, remaining) =
               (if batchSync i \<and> sfa \<noteq> [] then
                  (let ids = map acct_id sfa;
                       r = r0\<lparr>current := send (SimplefinBatchSync ids) s2\<rparr>
                   in (batchLoop (simplefin_batch_sync p ids) r,
                       filter (\<lambda>x. find (\<lambda>a. acct_id a = x) sfa = None) accountIdsToSync))
                else (r0, accountIdsToSync));
             r2 = sequentialLoop p remaining 0 r1;
             s3 = dispatch (SetNewTransactions (resNewTransactions (collected r2))
                             (resMatchedTransactions (collected r2))
                             (resUpdatedAccounts (collected r2))) (current r2);
             s4 = dispatch (SetAccountsSyncing []) s3
         in (isSyncSuccess r2, s4)))"

section \<open>Reading the trace\<close>

text \<open>The notifications among the effects, in the order they were dispatched.\<close>

fun notifications :: "effect list \<Rightarrow> action list" where
  "notifications [] = []"
| "notifications (Dispatch (AddNotification ty msg internal) # rest) =
     AddNotification ty msg internal # notifications rest"
| "notifications (e # rest) = notifications rest"

text \<open>
  The effects that \<open>handleSyncResponse\<close> produces (marking an account, notifying, asking
  for the account list) as opposed to those of the coordinator itself.
\<close>

fun classifierEffect :: "effect \<Rightarrow> bool" where
  "classifierEffect (Dispatch (MarkAccountFailed i ty co)) = True"
| "classifierEffect (Dispatch (MarkAccountSuccess i)) = True"
| "classifierEffect (Dispatch (AddNotification ty msg internal)) = True"
| "classifierEffect (Dispatch GetAccounts) = True"
| "classifierEffect e = False"

definition coordinatorTrace :: "effect list \<Rightarrow> effect list" where
  "coordinatorTrace es = filter (\<lambda>e. \<not> classifierEffect e) es"

text \<open>The id lists published through \<open>setAccountsSyncing\<close>, oldest first.\<close>

fun published :: "effect list \<Rightarrow> account_id list list" where
  "published [] = []"
| "published (Dispatch (SetAccountsSyncing ids) # rest) = ids # published rest"
| "published (e # rest) = published rest"

text \<open>The messages passed to \<open>send\<close>, oldest first.\<close>

fun requests :: "effect list \<Rightarrow> request list" where
  "requests [] = []"
| "requests (Send q # rest) = q # requests rest"
| "requests (e # rest) = requests rest"

text \<open>The \<open>setNewTransactions\<close> events, oldest first.\<close>

fun transactionUpdates :: "effect list \<Rightarrow> action list" where
  "transactionUpdates [] = []"
| "transactionUpdates (Dispatch (SetNewTransactions new matched updated) # rest) =
     SetNewTransactions new matched updated # transactionUpdates rest"
| "transactionUpdates (e # rest) = transactionUpdates rest"

section \<open>Names for the parts of a run\<close>

text \<open>The condition \<open>batchSync && simpleFinAccounts.length > 0\<close> of the batch branch.\<close>

definition batched :: "provider \<Rightarrow> account_id option \<Rightarrow> bool" where
  "batched p i = (batchSync i \<and> simpleFinAccounts (accounts_get p) \<noteq> [])"

text \<open>The ids sent with \<open>'simplefin-batch-sync'\<close>.\<close>

definition batchIds :: "provider \<Rightarrow> account_id list" where
  "batchIds p = map acct_id (simpleFinAccounts (accounts_get p))"

text \<open>\<open>accountIdsToSync\<close> as the sequential loop finds it.\<close>

definition sequentialIds ::
  "provider \<Rightarrow> account_entity list \<Rightarrow> account_id option \<Rightarrow> account_id list" where
  "sequentialIds p accounts i =
     (if batched p i
      then filter (\<lambda>x. find (\<lambda>a. acct_id a = x) (simpleFinAccounts (accounts_get p)) = None)
             (worklist i accounts)
      else worklist i accounts)"

text \<open>The responses handed to \<open>handleSyncResponse\<close> during a run, in that order.\<close>

definition processed ::
  "provider \<Rightarrow> account_entity list \<Rightarrow> account_id option \<Rightarrow> sync_response list" where
  "processed p accounts i =
     (if batched p i then map snd (simplefin_batch_sync p (batchIds p)) else []) @
     map (\<lambda>k. accounts_bank_sync p k (sequentialIds p accounts i ! k))
       [0..<length (sequentialIds p accounts i)]"

text \<open>\<open>newTransactions.length > 0 || matchedTransactions.length > 0\<close>.\<close>

definition contributes :: "sync_response \<Rightarrow> bool" where
  "contributes res = (newTransactions res \<noteq> [] \<or> matchedTransactions res \<noteq> [])"

text \<open>
  The order the specification describes: an on-budget account may stand before an
  off-budget one, and within a group the smaller \<open>sort_order\<close> comes first.
\<close>

definition syncOrder :: "account_entity \<Rightarrow> account_entity \<Rightarrow> bool" where
  "syncOrder a b =
     (if offbudget a = offbudget b then sort_order a \<le> sort_order b else \<not> offbudget a)"


section \<open>Example inputs\<close>

definition results0 :: results where
  "results0 = \<lparr>resNewTransactions = [], resMatchedTransactions = [], resUpdatedAccounts = []\<rparr>"

definition response :: "sync_error list \<Rightarrow> transaction_id list \<Rightarrow> sync_response" where
  "response es new =
     \<lparr>errors = es, newTransactions = new, matchedTransactions = [], updatedAccounts = []\<rparr>"

text \<open>A store in which account \<open>b\<close> is marked failed and a run over \<open>b\<close> and \<open>c\<close> is under way.\<close>

definition exampleStore :: store where
  "exampleStore =
     \<lparr>account = \<lparr>failedAccounts = [''b'' \<mapsto> \<lparr>errorType = ''E'', errorCode = ''C''\<rparr>],
                  accountsSyncing = [''b'', ''c'']\<rparr>,
      effects = []\<rparr>"

text \<open>The store of a freshly started client.\<close>

definition idleStore :: store where
  "idleStore = \<lparr>account = initialState, effects = []\<rparr>"

text \<open>A linked account; the arguments are id, offbudget, sort order, sync source, closed.\<close>

definition linked ::
  "account_id \<Rightarrow> bool \<Rightarrow> int \<Rightarrow> string \<Rightarrow> bool \<Rightarrow> account_entity" where
  "linked i off order source isClosed =
     \<lparr>acct_id = i, bank = Some ''bank'', closed = isClosed, tombstone = False,
      offbudget = off, sort_order = order, account_sync_source = Some source\<rparr>"

text \<open>
  A backend that knows the given accounts, answers a batch call with one new transaction
  per id, and answers the sequential calls with the new transactions \<open>t1\<close>, none, and
  \<open>t2, t1\<close>, in this order.
\<close>

definition backend :: "account_entity list \<Rightarrow> provider" where
  "backend accountsData =
     \<lparr>accounts_get = accountsData,
      simplefin_batch_sync = (\<lambda>ids. map (\<lambda>x. (x, response [] [x @ ''-1''])) ids),
      accounts_bank_sync = (\<lambda>idx accountId.
         response [] (if idx = 0 then [''t1''] else if idx = 1 then [] else [''t2'', ''t1'']))\<rparr>"

text \<open>The accounts A, B and C of the ordering example.\<close>

definition accountsABC :: "account_entity list" where
  "accountsABC =
     [linked ''A'' False 2 ''goCardless'' False,
      linked ''B'' True 1 ''goCardless'' False,
      linked ''C'' False 1 ''goCardless'' False]"

text \<open>Two accounts synced one by one and a third, \<open>a1\<close>, that goes through the batch call.\<close>

definition accountsWithBatch :: "account_entity list" where
  "accountsWithBatch =
     [linked ''a2'' False 1 ''goCardless'' False,
      linked ''a3'' False 2 ''goCardless'' False,
      linked ''a1'' False 3 ''simpleFin'' False]"

text \<open>Two SimpleFin accounts, of which \<open>shut\<close> has been closed.\<close>

definition accountsWithClosed :: "account_entity list" where
  "accountsWithClosed =
     [linked ''open'' False 1 ''simpleFin'' False,
      linked ''shut'' False 2 ''simpleFin'' True]"

section \<open>The store under dispatch and send\<close>

lemma account_dispatch: "account (dispatch a s) = reducer (account s) a"
  by (simp add: dispatch_def)

lemma effects_dispatch: "effects (dispatch a s) = effects s @ [Dispatch a]"
  by (simp add: dispatch_def)

lemma account_send: "account (send q s) = account s"
  by (simp add: send_def)

lemma effects_send: "effects (send q s) = effects s @ [Send q]"
  by (simp add: send_def)

lemma triple: "x = (fst x, fst (snd x), snd (snd x))"
  by simp

section \<open>Properties of handleSyncResponse\<close>

lemma reducer_notification: "reducer st (notification e) = st"
  by (cases e) simp_all

lemma account_notify:
  "account (fold (\<lambda>error. dispatch (notification error)) es s) = account s"
  by (induction es arbitrary: s) (simp_all add: account_dispatch reducer_notification)

lemma effects_notify:
  "effects (fold (\<lambda>error. dispatch (notification error)) es s) =
     effects s @ map (\<lambda>error. Dispatch (notification error)) es"
  by (induction es arbitrary: s) (simp_all add: effects_dispatch)

lemma account_handleSyncResponse:
  "account (fst (snd (handleSyncResponse accountId res s r))) =
     account (markAccount accountId (errors res) s)"
  by (simp add: handleSyncResponse_def Let_def account_dispatch account_notify)

lemma effects_handleSyncResponse:
  "effects (fst (snd (handleSyncResponse accountId res s r))) =
     effects (markAccount accountId (errors res) s)
       @ map (\<lambda>error. Dispatch (notification error)) (errors res) @ [Dispatch GetAccounts]"
  by (simp add: handleSyncResponse_def Let_def effects_dispatch effects_notify)

lemma failed_markAccount_other:
  "y \<noteq> accountId \<Longrightarrow>
     failedAccounts (account (markAccount accountId es s)) y = failedAccounts (account s) y"
  by (induction accountId es s rule: markAccount.induct) (simp_all add: account_dispatch)

lemma syncing_markAccount:
  "accountsSyncing (account (markAccount accountId es s)) = accountsSyncing (account s)"
  by (induction accountId es s rule: markAccount.induct) (simp_all add: account_dispatch)

lemma failed_markAccount_self:
  "failedAccounts (account (markAccount accountId es s)) accountId =
     (case es of
        [] \<Rightarrow> None
      | SyncError category code msg # rest \<Rightarrow> Some \<lparr>errorType = category, errorCode = code\<rparr>
      | OtherError msg internal # rest \<Rightarrow> failedAccounts (account s) accountId)"
  by (induction accountId es s rule: markAccount.induct) (simp_all add: account_dispatch)

lemma failed_markAccount:
  "failedAccounts (account (markAccount accountId es s)) =
     (case es of
        [] \<Rightarrow> (failedAccounts (account s))(accountId := None)
      | SyncError category code msg # rest \<Rightarrow>
          (failedAccounts (account s))(accountId \<mapsto> \<lparr>errorType = category, errorCode = code\<rparr>)
      | OtherError msg internal # rest \<Rightarrow> failedAccounts (account s))"
  by (induction accountId es s rule: markAccount.induct) (simp_all add: account_dispatch)

text \<open>
  C4. The health transition of \<open>handleSyncResponse\<close> is decided by the first element of
  \<open>errors\<close> alone: with no errors the entry of the account is deleted; with a \<open>SyncError\<close>
  first, the entry is written with its category and code; with any other error first, the
  whole failure dictionary stays as it was. What follows the first element (\<open>rest\<close>) plays
  no part.
\<close>

theorem first_issue_decides:
  assumes "handleSyncResponse accountId res s r = (ok, s', r')"
  shows "(errors res = [] \<longrightarrow>
            failedAccounts (account s') = (failedAccounts (account s))(accountId := None)) \<and>
         (\<forall>category code msg rest. errors res = SyncError category code msg # rest \<longrightarrow>
            failedAccounts (account s') =
              (failedAccounts (account s))(accountId \<mapsto>
                 \<lparr>errorType = category, errorCode = code\<rparr>)) \<and>
         (\<forall>msg internal rest. errors res = OtherError msg internal # rest \<longrightarrow>
            failedAccounts (account s') = failedAccounts (account s))"
proof -
  from assms have s': "s' = fst (snd (handleSyncResponse accountId res s r))"
    by simp
  show ?thesis
    unfolding s' account_handleSyncResponse failed_markAccount
    by simp
qed

theorem first_issue_decides_witness:
  "failedAccounts (account (fst (snd (handleSyncResponse ''b'' (response [] [''t''])
       exampleStore results0)))) ''b''
     = None \<and>
   failedAccounts (account (fst (snd (handleSyncResponse ''b''
       (response [SyncError ''X'' ''Y'' ''m'', OtherError ''n'' None] [])
       exampleStore results0)))) ''b''
     = Some \<lparr>errorType = ''X'', errorCode = ''Y''\<rparr> \<and>
   failedAccounts (account (fst (snd (handleSyncResponse ''b''
       (response [OtherError ''n'' None, SyncError ''X'' ''Y'' ''m''] [])
       exampleStore results0)))) ''b''
     = Some \<lparr>errorType = ''E'', errorCode = ''C''\<rparr>"
  using first_issue_decides [where accountId = "''b''" and res = "response [] [''t'']"
      and s = exampleStore and r = results0, OF triple]
    first_issue_decides [where accountId = "''b''"
      and res = "response [SyncError ''X'' ''Y'' ''m'', OtherError ''n'' None] []"
      and s = exampleStore and r = results0, OF triple]
    first_issue_decides [where accountId = "''b''"
      and res = "response [OtherError ''n'' None, SyncError ''X'' ''Y'' ''m''] []"
      and s = exampleStore and r = results0, OF triple]
  by (simp add: response_def exampleStore_def)

text \<open>
  C7. Two responses for the same account, processed one after the other: whatever the first
  one was, an error-free second response leaves no entry for the account, and a second
  response whose first error is a \<open>SyncError\<close> with category \<open>X\<close> and code \<open>Y\<close> leaves
  exactly \<open>{type: X, code: Y}\<close>. So a \<open>SyncError\<close> followed by a success leaves nothing,
  the reverse order leaves the failure, and the entry never accumulates earlier failures.
\<close>

theorem last_response_wins:
  assumes "handleSyncResponse accountId former s r = (okA, sA, rA)"
    and "handleSyncResponse accountId latter sA rA = (okB, sB, rB)"
  shows "(errors latter = [] \<longrightarrow> failedAccounts (account sB) accountId = None) \<and>
         (\<forall>X Y msg rest. errors latter = SyncError X Y msg # rest \<longrightarrow>
            failedAccounts (account sB) accountId = Some \<lparr>errorType = X, errorCode = Y\<rparr>)"
proof -
  from assms(2) have sB: "sB = fst (snd (handleSyncResponse accountId latter sA rA))"
    by simp
  show ?thesis
    unfolding sB account_handleSyncResponse failed_markAccount_self
    by simp
qed

theorem last_response_wins_witness:
  "(let failed = SyncError ''X'' ''Y'' ''link broken'';
        (okA, sA, rA) = handleSyncResponse ''a'' (response [failed] []) exampleStore results0;
        (okB, sB, rB) = handleSyncResponse ''a'' (response [] [''t'']) sA rA
    in failedAccounts (account sB) ''a'') = None \<and>
   (let failed = SyncError ''X'' ''Y'' ''link broken'';
        (okA, sA, rA) = handleSyncResponse ''a'' (response [] [''t'']) exampleStore results0;
        (okB, sB, rB) = handleSyncResponse ''a'' (response [failed] []) sA rA
    in failedAccounts (account sB) ''a'') = Some \<lparr>errorType = ''X'', errorCode = ''Y''\<rparr>"
  using last_response_wins [where accountId = "''a''"
      and former = "response [SyncError ''X'' ''Y'' ''link broken''] []"
      and latter = "response [] [''t'']" and s = exampleStore and r = results0,
      OF triple triple]
    last_response_wins [where accountId = "''a''"
      and latter = "response [SyncError ''X'' ''Y'' ''link broken''] []"
      and former = "response [] [''t'']" and s = exampleStore and r = results0,
      OF triple triple]
  by (simp add: response_def Let_def split_beta)

lemma notifications_append: "notifications (xs @ ys) = notifications xs @ notifications ys"
  by (induction xs rule: notifications.induct) simp_all

lemma notifications_markAccount:
  "notifications (effects (markAccount accountId es s)) = notifications (effects s)"
  by (induction accountId es s rule: markAccount.induct)
    (simp_all add: effects_dispatch notifications_append)

lemma notifications_map:
  "notifications (map (\<lambda>error. Dispatch (notification error)) es) = map notification es"
proof (induction es)
  case Nil
  show ?case by simp
next
  case (Cons e es)
  then show ?case by (cases e) simp_all
qed

text \<open>
  C8. \<open>handleSyncResponse\<close> adds to the trace exactly one notification for each element of
  \<open>errors\<close>, in the order of the list and whatever its position: for a \<open>SyncError\<close> an
  error notification with its message and no internal detail, for any other error an error
  notification with its message and its internal detail, when it has one.
\<close>

theorem one_notification_per_error:
  assumes "handleSyncResponse accountId res s r = (ok, s', r')"
  shows "notifications (effects s') =
           notifications (effects s) @
           map (\<lambda>error. case error of
                   SyncError category code msg \<Rightarrow> AddNotification ''error'' msg None
                 | OtherError msg internal \<Rightarrow> AddNotification ''error'' msg internal)
             (errors res)"
proof -
  from assms have s': "s' = fst (snd (handleSyncResponse accountId res s r))"
    by simp
  have "notification = (\<lambda>error. case error of
                   SyncError category code msg \<Rightarrow> AddNotification ''error'' msg None
                 | OtherError msg internal \<Rightarrow> AddNotification ''error'' msg internal)"
    by (rule ext) (simp split: sync_error.split)
  then show ?thesis
    unfolding s' effects_handleSyncResponse
    by (simp add: notifications_append notifications_markAccount notifications_map)
qed

theorem one_notification_per_error_witness:
  "notifications (effects (fst (snd (handleSyncResponse ''b''
       (response [OtherError ''n'' (Some ''d''), SyncError ''X'' ''Y'' ''m'',
                  OtherError ''k'' None] [])
       exampleStore results0)))) =
     [AddNotification ''error'' ''n'' (Some ''d''), AddNotification ''error'' ''m'' None,
      AddNotification ''error'' ''k'' None]"
  using one_notification_per_error [where accountId = "''b''"
      and res = "response [OtherError ''n'' (Some ''d''), SyncError ''X'' ''Y'' ''m'',
                  OtherError ''k'' None] []"
      and s = exampleStore and r = results0, OF triple]
  by (simp add: response_def exampleStore_def)

text \<open>
  C10. Processing a response for account \<open>accountId\<close> leaves \<open>accountsSyncing\<close> and the
  \<open>failedAccounts\<close> entry of every other account id as they were.
\<close>

theorem handleSyncResponse_frame:
  assumes "handleSyncResponse accountId res s r = (ok, s', r')"
  shows "accountsSyncing (account s') = accountsSyncing (account s) \<and>
         (\<forall>y. y \<noteq> accountId \<longrightarrow>
            failedAccounts (account s') y = failedAccounts (account s) y)"
proof -
  from assms have s': "s' = fst (snd (handleSyncResponse accountId res s r))"
    by simp
  show ?thesis
    unfolding s' account_handleSyncResponse
    by (simp add: syncing_markAccount failed_markAccount_other)
qed

theorem handleSyncResponse_frame_witness:
  "accountsSyncing (account (fst (snd (handleSyncResponse ''a''
       (response [SyncError ''X'' ''Y'' ''m''] []) exampleStore results0)))) = [''b'', ''c''] \<and>
   failedAccounts (account (fst (snd (handleSyncResponse ''a''
       (response [SyncError ''X'' ''Y'' ''m''] []) exampleStore results0)))) ''b''
     = Some \<lparr>errorType = ''E'', errorCode = ''C''\<rparr>"
  using handleSyncResponse_frame [where accountId = "''a''"
      and res = "response [SyncError ''X'' ''Y'' ''m''] []"
      and s = exampleStore and r = results0, OF triple]
  by (simp add: exampleStore_def)

section \<open>Properties of syncAccounts\<close>

text \<open>
  C1. When \<open>accountsSyncing\<close> is not empty at entry, \<open>syncAccounts\<close> returns \<open>false\<close> and
  the store at exit is the store at entry: the slice state is the same and nothing was
  added to the trace, so nothing was dispatched and nothing was sent to the backend.
\<close>

theorem single_flight:
  "accountsSyncing (account s) \<noteq> [] \<Longrightarrow> syncAccounts p accounts i s = (False, s)"
  by (simp add: syncAccounts_def)

theorem single_flight_witness:
  "syncAccounts (backend accountsABC) accountsABC None exampleStore = (False, exampleStore)"
  using single_flight [of exampleStore "backend accountsABC" accountsABC None]
  by (simp add: exampleStore_def)

subsection \<open>What the classifier leaves of a run's trace\<close>

lemma coordinatorTrace_append:
  "coordinatorTrace (xs @ ys) = coordinatorTrace xs @ coordinatorTrace ys"
  by (simp add: coordinatorTrace_def)

lemma coordinatorTrace_markAccount:
  "coordinatorTrace (effects (markAccount accountId es s)) = coordinatorTrace (effects s)"
  by (induction accountId es s rule: markAccount.induct)
    (simp_all add: effects_dispatch coordinatorTrace_def)

lemma coordinatorTrace_notify:
  "coordinatorTrace (map (\<lambda>error. Dispatch (notification error)) es) = []"
proof (induction es)
  case Nil
  show ?case by (simp add: coordinatorTrace_def)
next
  case (Cons e es)
  then show ?case by (cases e) (simp_all add: coordinatorTrace_def)
qed

lemma coordinatorTrace_handleSyncResponse:
  "coordinatorTrace (effects (fst (snd (handleSyncResponse accountId res s r)))) =
     coordinatorTrace (effects s)"
  unfolding effects_handleSyncResponse coordinatorTrace_append
    coordinatorTrace_markAccount coordinatorTrace_notify
  by (simp add: coordinatorTrace_def)

lemma collected_handleSyncResponse:
  "snd (snd (handleSyncResponse accountId res s r)) =
     \<lparr>resNewTransactions = resNewTransactions r @ newTransactions res,
      resMatchedTransactions = resMatchedTransactions r @ matchedTransactions res,
      resUpdatedAccounts = resUpdatedAccounts r @ updatedAccounts res\<rparr>"
  by (simp add: handleSyncResponse_def Let_def)

lemma success_handleSyncResponse:
  "fst (handleSyncResponse accountId res s r) = contributes res"
  by (simp add: handleSyncResponse_def Let_def contributes_def)

lemma current_handleInRun:
  "current (handleInRun accountId res r) =
     fst (snd (handleSyncResponse accountId res (current r) (collected r)))"
  by (simp add: handleInRun_def split_beta)

lemma collected_handleInRun:
  "collected (handleInRun accountId res r) =
     \<lparr>resNewTransactions = resNewTransactions (collected r) @ newTransactions res,
      resMatchedTransactions = resMatchedTransactions (collected r) @ matchedTransactions res,
      resUpdatedAccounts = resUpdatedAccounts (collected r) @ updatedAccounts res\<rparr>"
  by (simp add: handleInRun_def split_beta collected_handleSyncResponse)

lemma success_handleInRun:
  "isSyncSuccess (handleInRun accountId res r) = (isSyncSuccess r \<or> contributes res)"
  by (auto simp add: handleInRun_def split_beta success_handleSyncResponse)

lemma trace_handleInRun:
  "coordinatorTrace (effects (current (handleInRun accountId res r))) =
     coordinatorTrace (effects (current r))"
  by (simp add: current_handleInRun coordinatorTrace_handleSyncResponse)

lemma trace_batchLoop:
  "coordinatorTrace (effects (current (batchLoop brs r))) =
     coordinatorTrace (effects (current r))"
  by (induction brs r rule: batchLoop.induct) (simp_all add: trace_handleInRun)

lemma collected_batchLoop:
  "collected (batchLoop brs r) =
     \<lparr>resNewTransactions =
        resNewTransactions (collected r) @ concat (map newTransactions (map snd brs)),
      resMatchedTransactions =
        resMatchedTransactions (collected r) @ concat (map matchedTransactions (map snd brs)),
      resUpdatedAccounts =
        resUpdatedAccounts (collected r) @ concat (map updatedAccounts (map snd brs))\<rparr>"
  by (induction brs r rule: batchLoop.induct) (simp_all add: collected_handleInRun)

lemma success_batchLoop:
  "isSyncSuccess (batchLoop brs r) =
     (isSyncSuccess r \<or> list_ex contributes (map snd brs))"
  by (induction brs r rule: batchLoop.induct) (simp_all add: success_handleInRun)

text \<open>The coordinator's own effects in one round of the sequential loop.\<close>

lemma trace_sequentialLoop:
  "coordinatorTrace (effects (current (sequentialLoop p ids idx r))) =
     coordinatorTrace (effects (current r)) @
     concat (map (\<lambda>k. [Send (AccountsBankSync [ids ! k]),
                        Dispatch (SetAccountsSyncing (drop (Suc k) ids))])
               [idx..<length ids])"
proof (induction p ids idx r rule: sequentialLoop.induct)
  case (1 p ids idx r)
  show ?case
  proof (cases "idx < length ids")
    case True
    note IH = "1.IH" [OF True refl refl refl refl]
    show ?thesis
      apply (subst sequentialLoop.simps)
      apply (simp only: True if_True Let_def IH)
      apply (simp add: upt_conv_Cons [OF True] effects_dispatch coordinatorTrace_append
          trace_handleInRun effects_send)
      apply (simp add: coordinatorTrace_def)
      done
  next
    case False
    then show ?thesis by (subst sequentialLoop.simps) simp
  qed
qed

lemma collected_sequentialLoop:
  "collected (sequentialLoop p ids idx r) =
     \<lparr>resNewTransactions = resNewTransactions (collected r) @
        concat (map newTransactions (map (\<lambda>k. accounts_bank_sync p k (ids ! k)) [idx..<length ids])),
      resMatchedTransactions = resMatchedTransactions (collected r) @
        concat (map matchedTransactions (map (\<lambda>k. accounts_bank_sync p k (ids ! k)) [idx..<length ids])),
      resUpdatedAccounts = resUpdatedAccounts (collected r) @
        concat (map updatedAccounts (map (\<lambda>k. accounts_bank_sync p k (ids ! k)) [idx..<length ids]))\<rparr>"
proof (induction p ids idx r rule: sequentialLoop.induct)
  case (1 p ids idx r)
  show ?case
  proof (cases "idx < length ids")
    case True
    note IH = "1.IH" [OF True refl refl refl refl]
    show ?thesis
      apply (subst sequentialLoop.simps)
      apply (simp only: True if_True Let_def IH)
      apply (simp add: upt_conv_Cons [OF True] collected_handleInRun)
      done
  next
    case False
    then show ?thesis by (subst sequentialLoop.simps) simp
  qed
qed

lemma success_sequentialLoop:
  "isSyncSuccess (sequentialLoop p ids idx r) =
     (isSyncSuccess r \<or>
      list_ex contributes (map (\<lambda>k. accounts_bank_sync p k (ids ! k)) [idx..<length ids]))"
proof (induction p ids idx r rule: sequentialLoop.induct)
  case (1 p ids idx r)
  show ?case
  proof (cases "idx < length ids")
    case True
    note IH = "1.IH" [OF True refl refl refl refl]
    show ?thesis
      apply (subst sequentialLoop.simps)
      apply (simp only: True if_True Let_def IH)
      apply (simp add: upt_conv_Cons [OF True] success_handleInRun)
      done
  next
    case False
    then show ?thesis by (subst sequentialLoop.simps) simp
  qed
qed


lemma batch_condition:
  "(batchSync i \<and> simpleFinAccounts (accounts_get p) \<noteq> []) = batched p i"
  by (simp add: batched_def)

lemma trace_syncAccounts:
  assumes "accountsSyncing (account s) = []"
  shows "coordinatorTrace (effects (snd (syncAccounts p accounts i s))) =
     coordinatorTrace (effects s) @
     [Dispatch (SetAccountsSyncing (worklist i accounts)), Send AccountsGet] @
     (if batched p i then [Send (SimplefinBatchSync (batchIds p))] else []) @
     concat (map (\<lambda>k. [Send (AccountsBankSync [sequentialIds p accounts i ! k]),
                        Dispatch (SetAccountsSyncing (drop (Suc k) (sequentialIds p accounts i)))])
               [0..<length (sequentialIds p accounts i)]) @
     [Dispatch (SetNewTransactions
        (concat (map newTransactions (processed p accounts i)))
        (concat (map matchedTransactions (processed p accounts i)))
        (concat (map updatedAccounts (processed p accounts i)))),
      Dispatch (SetAccountsSyncing [])]"
proof (cases "batched p i")
  case True
  show ?thesis
    using assms True unfolding syncAccounts_def Let_def batch_condition
    by (simp add: Let_def effects_dispatch effects_send
        coordinatorTrace_append trace_sequentialLoop trace_batchLoop
        collected_sequentialLoop collected_batchLoop
        sequentialIds_def processed_def batchIds_def)
      (simp add: coordinatorTrace_def)
next
  case False
  show ?thesis
    using assms False unfolding syncAccounts_def Let_def batch_condition
    by (simp add: Let_def effects_dispatch effects_send
        coordinatorTrace_append trace_sequentialLoop
        collected_sequentialLoop
        sequentialIds_def processed_def)
      (simp add: coordinatorTrace_def)
qed

lemma result_syncAccounts:
  assumes "accountsSyncing (account s) = []"
  shows "fst (syncAccounts p accounts i s) = list_ex contributes (processed p accounts i)"
proof (cases "batched p i")
  case True
  show ?thesis
    using assms True unfolding syncAccounts_def Let_def batch_condition
    by (simp add: Let_def success_sequentialLoop success_batchLoop
        sequentialIds_def processed_def batchIds_def)
next
  case False
  show ?thesis
    using assms False unfolding syncAccounts_def Let_def batch_condition
    by (simp add: Let_def success_sequentialLoop
        sequentialIds_def processed_def)
qed

subsection \<open>The worklist of a run over all accounts\<close>

lemma compare_syncOrder: "(compareAccounts a b \<le> 0) = syncOrder a b"
  by (auto simp add: compareAccounts_def syncOrder_def)

lemma syncOrder_total: "\<not> syncOrder a b \<Longrightarrow> syncOrder b a"
  by (auto simp add: syncOrder_def split: if_splits)

lemma syncOrder_trans: "syncOrder a b \<Longrightarrow> syncOrder b c \<Longrightarrow> syncOrder a c"
  by (auto simp add: syncOrder_def split: if_splits)

lemma mset_insertBy: "mset (insertBy cmp x xs) = add_mset x (mset xs)"
  by (induction xs) simp_all

lemma mset_sortBy: "mset (sortBy cmp xs) = mset xs"
  by (induction xs) (simp_all add: mset_insertBy)

lemma set_insertBy: "set (insertBy cmp x xs) = insert x (set xs)"
  by (induction xs) auto

lemma sorted_insertBy:
  "sorted_wrt syncOrder xs \<Longrightarrow> sorted_wrt syncOrder (insertBy compareAccounts x xs)"
proof (induction xs)
  case Nil
  show ?case by simp
next
  case (Cons y ys)
  show ?case
  proof (cases "syncOrder x y")
    case True
    with Cons.prems show ?thesis
      by (auto simp add: compare_syncOrder intro: syncOrder_trans)
  next
    case False
    then have "syncOrder y x" by (rule syncOrder_total)
    with False Cons show ?thesis
      by (auto simp add: compare_syncOrder set_insertBy)
  qed
qed

lemma sorted_sortBy: "sorted_wrt syncOrder (sortBy compareAccounts xs)"
  by (induction xs) (simp_all add: sorted_insertBy)

lemma worklist_ABC: "worklist None accountsABC = [''C'', ''A'', ''B'']"
  by (simp add: worklist_def batchSync_def accountsToSync_def accountsABC_def linked_def
      syncable_def compareAccounts_def)

text \<open>
  C5. With no target id the worklist is the list of ids of \<open>accountsToSync\<close>, which holds
  exactly the accounts that are linked to a bank, not closed and not tombstoned (each as
  often as it occurs in the account list) and is ordered: on-budget accounts before
  off-budget accounts and, within a group, ascending \<open>sort_order\<close>. For the accounts
  A (on budget, 2), B (off budget, 1) and C (on budget, 1) the worklist is C, A, B.
\<close>

theorem sync_all_worklist:
  "worklist None accounts = map acct_id (accountsToSync accounts) \<and>
   mset (accountsToSync accounts) =
     mset (filter (\<lambda>a. truthy (bank a) \<and> \<not> closed a \<and> \<not> tombstone a) accounts) \<and>
   sorted_wrt syncOrder (accountsToSync accounts) \<and>
   worklist None
     [linked ''A'' False 2 ''goCardless'' False,
      linked ''B'' True 1 ''goCardless'' False,
      linked ''C'' False 1 ''goCardless'' False] = [''C'', ''A'', ''B'']"
proof -
  have "syncable = (\<lambda>a. truthy (bank a) \<and> \<not> closed a \<and> \<not> tombstone a)"
    by (rule ext) (simp add: syncable_def)
  then have "mset (accountsToSync accounts) =
     mset (filter (\<lambda>a. truthy (bank a) \<and> \<not> closed a \<and> \<not> tombstone a) accounts)"
    by (simp add: accountsToSync_def mset_sortBy)
  moreover have "worklist None accounts = map acct_id (accountsToSync accounts)"
    by (simp add: worklist_def batchSync_def)
  moreover have "sorted_wrt syncOrder (accountsToSync accounts)"
    by (simp add: accountsToSync_def sorted_sortBy)
  moreover note worklist_ABC [unfolded accountsABC_def]
  ultimately show ?thesis by simp
qed

subsection \<open>Publications, requests and the final event of a run\<close>

lemma published_append: "published (xs @ ys) = published xs @ published ys"
  by (induction xs rule: published.induct) simp_all

lemma requests_append: "requests (xs @ ys) = requests xs @ requests ys"
  by (induction xs rule: requests.induct) simp_all

lemma transactionUpdates_append:
  "transactionUpdates (xs @ ys) = transactionUpdates xs @ transactionUpdates ys"
  by (induction xs rule: transactionUpdates.induct) simp_all

lemma published_coordinatorTrace: "published (coordinatorTrace es) = published es"
  unfolding coordinatorTrace_def
  by (induction es rule: published.induct) simp_all

lemma requests_coordinatorTrace: "requests (coordinatorTrace es) = requests es"
  unfolding coordinatorTrace_def
  by (induction es rule: requests.induct) simp_all

lemma transactionUpdates_coordinatorTrace:
  "transactionUpdates (coordinatorTrace es) = transactionUpdates es"
  unfolding coordinatorTrace_def
  by (induction es rule: transactionUpdates.induct) simp_all

lemma published_rounds:
  "published (concat (map (\<lambda>k. [Send (AccountsBankSync [ids ! k]),
                                  Dispatch (SetAccountsSyncing (drop (Suc k) ids))]) ks)) =
     map (\<lambda>k. drop (Suc k) ids) ks"
  by (induction ks) simp_all

lemma requests_rounds:
  "requests (concat (map (\<lambda>k. [Send (AccountsBankSync [ids ! k]),
                                 Dispatch (SetAccountsSyncing (drop (Suc k) ids))]) ks)) =
     map (\<lambda>k. AccountsBankSync [ids ! k]) ks"
  by (induction ks) simp_all

lemma transactionUpdates_rounds:
  "transactionUpdates (concat (map (\<lambda>k. [Send (AccountsBankSync [ids ! k]),
                                  Dispatch (SetAccountsSyncing (drop (Suc k) ids))]) ks)) = []"
  by (induction ks) simp_all

lemma published_syncAccounts:
  assumes "accountsSyncing (account s) = []"
  shows "published (effects (snd (syncAccounts p accounts i s))) =
     published (effects s) @ [worklist i accounts] @
     map (\<lambda>k. drop (Suc k) (sequentialIds p accounts i))
       [0..<length (sequentialIds p accounts i)] @ [[]]"
proof -
  have "published (effects (snd (syncAccounts p accounts i s))) =
      published (coordinatorTrace (effects (snd (syncAccounts p accounts i s))))"
    by (simp only: published_coordinatorTrace)
  also have "\<dots> = published (effects s) @ [worklist i accounts] @
     map (\<lambda>k. drop (Suc k) (sequentialIds p accounts i))
       [0..<length (sequentialIds p accounts i)] @ [[]]"
    unfolding trace_syncAccounts [OF assms] published_append published_rounds
      published_coordinatorTrace
    by simp
  finally show ?thesis .
qed

lemma requests_syncAccounts:
  assumes "accountsSyncing (account s) = []"
  shows "requests (effects (snd (syncAccounts p accounts i s))) =
     requests (effects s) @ [AccountsGet] @
     (if batched p i then [SimplefinBatchSync (batchIds p)] else []) @
     map (\<lambda>k. AccountsBankSync [sequentialIds p accounts i ! k])
       [0..<length (sequentialIds p accounts i)]"
proof -
  have "requests (effects (snd (syncAccounts p accounts i s))) =
      requests (coordinatorTrace (effects (snd (syncAccounts p accounts i s))))"
    by (simp only: requests_coordinatorTrace)
  also have "\<dots> = requests (effects s) @ [AccountsGet] @
     (if batched p i then [SimplefinBatchSync (batchIds p)] else []) @
     map (\<lambda>k. AccountsBankSync [sequentialIds p accounts i ! k])
       [0..<length (sequentialIds p accounts i)]"
    unfolding trace_syncAccounts [OF assms] requests_append requests_rounds
      requests_coordinatorTrace
    by simp
  finally show ?thesis .
qed

lemma transactionUpdates_syncAccounts:
  assumes "accountsSyncing (account s) = []"
  shows "transactionUpdates (effects (snd (syncAccounts p accounts i s))) =
     transactionUpdates (effects s) @
     [SetNewTransactions
        (concat (map newTransactions (processed p accounts i)))
        (concat (map matchedTransactions (processed p accounts i)))
        (concat (map updatedAccounts (processed p accounts i)))]"
proof -
  have "transactionUpdates (effects (snd (syncAccounts p accounts i s))) =
      transactionUpdates (coordinatorTrace (effects (snd (syncAccounts p accounts i s))))"
    by (simp only: transactionUpdates_coordinatorTrace)
  also have "\<dots> = transactionUpdates (effects s) @
     [SetNewTransactions
        (concat (map newTransactions (processed p accounts i)))
        (concat (map matchedTransactions (processed p accounts i)))
        (concat (map updatedAccounts (processed p accounts i)))]"
    unfolding trace_syncAccounts [OF assms] transactionUpdates_append
      transactionUpdates_rounds transactionUpdates_coordinatorTrace
    by simp
  finally show ?thesis .
qed

subsection \<open>The claims about a whole run\<close>

lemma idle_idleStore: "accountsSyncing (account idleStore) = []"
  by (simp add: idleStore_def initialState_def)

lemma effects_idleStore: "effects idleStore = []"
  by (simp add: idleStore_def)

text \<open>
  C2, as the code has it. A run that starts publishes exactly one \<open>setNewTransactions\<close>
  event. Its three lists are the concatenations, in processing order, of the
  \<open>newTransactions\<close>, \<open>matchedTransactions\<close> and \<open>updatedAccounts\<close> of all processed
  responses. As sets they are the unions over the processed responses, but an id that
  several responses report is carried as often as it was reported. The returned flag is
  true exactly when some processed response has a new or a matched transaction.
\<close>

theorem aggregate_is_concatenation:
  assumes "accountsSyncing (account s) = []"
  shows "transactionUpdates (effects (snd (syncAccounts p accounts i s))) =
           transactionUpdates (effects s) @
           [SetNewTransactions
              (concat (map newTransactions (processed p accounts i)))
              (concat (map matchedTransactions (processed p accounts i)))
              (concat (map updatedAccounts (processed p accounts i)))] \<and>
         set (concat (map newTransactions (processed p accounts i))) =
           (\<Union>res \<in> set (processed p accounts i). set (newTransactions res)) \<and>
         set (concat (map matchedTransactions (processed p accounts i))) =
           (\<Union>res \<in> set (processed p accounts i). set (matchedTransactions res)) \<and>
         set (concat (map updatedAccounts (processed p accounts i))) =
           (\<Union>res \<in> set (processed p accounts i). set (updatedAccounts res)) \<and>
         fst (syncAccounts p accounts i s) =
           list_ex (\<lambda>res. newTransactions res \<noteq> [] \<or> matchedTransactions res \<noteq> [])
             (processed p accounts i)"
proof -
  have "contributes = (\<lambda>res. newTransactions res \<noteq> [] \<or> matchedTransactions res \<noteq> [])"
    by (rule ext) (simp add: contributes_def)
  with result_syncAccounts [OF assms, of p accounts i]
    transactionUpdates_syncAccounts [OF assms, of p accounts i]
  show ?thesis by simp
qed

theorem aggregate_is_concatenation_witness:
  "transactionUpdates (effects (snd (syncAccounts (backend accountsABC) accountsABC (Some ''A'')
      idleStore))) = [SetNewTransactions [''t1''] [] []] \<and>
   fst (syncAccounts (backend accountsABC) accountsABC (Some ''A'') idleStore)"
proof -
  have "processed (backend accountsABC) accountsABC (Some ''A'') = [response [] [''t1'']]"
    by code_simp
  with aggregate_is_concatenation [OF idle_idleStore, of "backend accountsABC" accountsABC
      "Some ''A''"]
  show ?thesis by (simp add: effects_idleStore response_def)
qed

text \<open>
  C2, as stated, fails: three processed accounts with the new transactions \<open>t1\<close>, none, and
  \<open>t2, t1\<close> give a published list in which \<open>t1\<close> stands twice.
\<close>

theorem aggregate_keeps_duplicates:
  "map newTransactions (processed (backend accountsABC) accountsABC None) =
     [[''t1''], [], [''t2'', ''t1'']] \<and>
   transactionUpdates (effects (snd (syncAccounts (backend accountsABC) accountsABC None
      idleStore))) = [SetNewTransactions [''t1'', ''t2'', ''t1''] [] []] \<and>
   \<not> distinct [''t1'', ''t2'', ''t1'']"
  by code_simp

text \<open>
  C3. The code at an input where the claim fails: with the accounts \<open>open\<close> and \<open>shut\<close>,
  both SimpleFin and the second one closed, the worklist of a run over all accounts is
  \<open>open\<close> alone, yet the batch call is sent for \<open>open\<close> and \<open>shut\<close>.
\<close>

theorem batch_call_takes_closed_account:
  "worklist None accountsWithClosed = [''open''] \<and>
   requests (effects (snd (syncAccounts (backend accountsWithClosed) accountsWithClosed None
      idleStore))) = [AccountsGet, SimplefinBatchSync [''open'', ''shut'']]"
  by code_simp





text \<open>
  C9. A run that starts with a target account identifier (a non-empty string: \<open>!id\<close> reads
  the empty string as "no id provided") has the worklist \<open>[target]\<close>, publishes
  \<open>[target]\<close>, then the empty list twice, and sends exactly two requests:
  \<open>'accounts-get'\<close> and one \<open>'accounts-bank-sync'\<close> for the target. No batch call is made,
  whatever the sync source of the target.
\<close>

theorem targeted_run:
  assumes "target \<noteq> []" and "accountsSyncing (account s) = []"
  shows "worklist (Some target) accounts = [target] \<and>
         published (effects (snd (syncAccounts p accounts (Some target) s))) =
           published (effects s) @ [[target], [], []] \<and>
         requests (effects (snd (syncAccounts p accounts (Some target) s))) =
           requests (effects s) @ [AccountsGet, AccountsBankSync [target]]"
proof -
  from assms(1) have nb: "\<not> batched p (Some target)"
    by (simp add: batched_def batchSync_def)
  from assms(1) have w: "worklist (Some target) accounts = [target]"
    by (simp add: worklist_def batchSync_def)
  from nb w have sq: "sequentialIds p accounts (Some target) = [target]"
    by (simp add: sequentialIds_def)
  show ?thesis
    unfolding published_syncAccounts [OF assms(2)] requests_syncAccounts [OF assms(2)]
    using nb w sq by simp
qed

theorem targeted_run_witness:
  "worklist (Some ''a1'') accountsWithBatch = [''a1''] \<and>
   published (effects (snd (syncAccounts (backend accountsWithBatch) accountsWithBatch
      (Some ''a1'') idleStore))) = [[''a1''], [], []] \<and>
   requests (effects (snd (syncAccounts (backend accountsWithBatch) accountsWithBatch
      (Some ''a1'') idleStore))) = [AccountsGet, AccountsBankSync [''a1'']]"
  using targeted_run [OF _ idle_idleStore, of "''a1''" accountsWithBatch
      "backend accountsWithBatch"]
  by (simp add: effects_idleStore)

end
